theory Spec2Isabelle
  imports Main "HOL-Library.Multiset"
begin

section \<open>The two source files and their module-level constants\<close>

text \<open>
  The repository holds two near-duplicate programs, \<^verbatim>\<open>snake_rush.py\<close> and
  \<^verbatim>\<open>snakerush.py\<close>. Their simulation cores differ in the block size, in the growth
  table of \<^verbatim>\<open>Game.update\<close>, in the guard of \<^verbatim>\<open>Game.update\<close> and in how
  \<^verbatim>\<open>LeaderBoard.save_scores\<close> treats an I/O failure. The model is parameterised by the
  source file, so every theorem below speaks about both.
\<close>

datatype source_file = snake_rush_py | snakerush_py

definition BLOCK_SIZE :: "source_file \<Rightarrow> int" where
  "BLOCK_SIZE f = (case f of snake_rush_py \<Rightarrow> 30 | snakerush_py \<Rightarrow> 40)"

definition BASE_FPS :: int where
  "BASE_FPS = 8"

definition MAX_FPS :: int where
  "MAX_FPS = 20"

definition SPEED_INTERVAL :: int where
  "SPEED_INTERVAL = 5"

type_synonym rgb = "int \<times> int \<times> int"

definition GREEN :: rgb where
  "GREEN = (0, 255, 0)"

definition RED :: rgb where
  "RED = (255, 0, 0)"

definition BLUE :: rgb where
  "BLUE = (0, 0, 255)"

definition YELLOW :: rgb where
  "YELLOW = (255, 255, 0)"

definition PURPLE :: rgb where
  "PURPLE = (128, 0, 128)"

text \<open>
  \<^verbatim>\<open>GRID_WIDTH\<close> and \<^verbatim>\<open>GRID_HEIGHT\<close> come from the display
  (\<^verbatim>\<open>pygame.display.Info()\<close>), and \<^verbatim>\<open>SCREEN_WIDTH\<close>, \<^verbatim>\<open>SCREEN_HEIGHT\<close> are
  module globals that start as \<^verbatim>\<open>GRID_WIDTH * BLOCK_SIZE\<close>, \<^verbatim>\<open>GRID_HEIGHT * BLOCK_SIZE\<close>
  and that the \<^verbatim>\<open>VIDEORESIZE\<close> handler of \<^verbatim>\<open>snake_rush.py\<close> overwrites with the
  window size. They are inputs of the model.
\<close>

record env =
  src :: source_file
  GRID_WIDTH :: int
  GRID_HEIGHT :: int
  SCREEN_WIDTH :: int
  SCREEN_HEIGHT :: int

definition startup_env :: "source_file \<Rightarrow> int \<Rightarrow> int \<Rightarrow> env" where
  "startup_env f current_w current_h =
     \<lparr>src = f,
      GRID_WIDTH = current_w div BLOCK_SIZE f,
      GRID_HEIGHT = current_h div BLOCK_SIZE f,
      SCREEN_WIDTH = (current_w div BLOCK_SIZE f) * BLOCK_SIZE f,
      SCREEN_HEIGHT = (current_h div BLOCK_SIZE f) * BLOCK_SIZE f\<rparr>"

text \<open>
  Exceptions of the Python code are values. \<open>OutOfDraws\<close> is not a Python exception: the
  random numbers a call consumes are supplied as a finite list, and \<open>OutOfDraws\<close> says that
  the list ended before the call returned (the only unbounded consumer is the position
  re-roll loop of \<^verbatim>\<open>spawn_food\<close>).
\<close>

datatype error = IndexError | ZeroDivisionError | ValueError | IOError | OutOfDraws

section \<open>LeaderBoard\<close>

text \<open>
  An entry is the dictionary \<^verbatim>\<open>{'score': .., 'length': .., 'date': ..}\<close>. The board holds
  the in-memory list \<^verbatim>\<open>self.scores\<close>; \<open>saved\<close> is what the last successful
  \<^verbatim>\<open>save_scores\<close> wrote to \<^verbatim>\<open>LEADERBOARD_FILE\<close>.
\<close>

record entry =
  score_e :: int
  length_e :: int
  date :: string

record leaderboard_state =
  scores :: "entry list"
  saved :: "entry list"

text \<open>
  A method that writes the file returns the board as the call leaves it, together with
  the exception that leaves the call, if any: the list is changed before the file is
  written. \<open>io_ok\<close> tells whether opening and writing the file succeeds.
  \<^verbatim>\<open>snake_rush.py\<close> catches the \<^verbatim>\<open>IOError\<close> in \<^verbatim>\<open>save_scores\<close> and goes on;
  \<^verbatim>\<open>snakerush.py\<close> has no handler, so the exception leaves the method (and, uncaught in
  \<^verbatim>\<open>main\<close>, the program).
\<close>

definition save_scores ::
  "source_file \<Rightarrow> bool \<Rightarrow> leaderboard_state \<Rightarrow> leaderboard_state \<times> error option" where
  "save_scores f io_ok lb =
     (if io_ok then (lb\<lparr>saved := scores lb\<rparr>, None)
      else (case f of snake_rush_py \<Rightarrow> (lb, None) | snakerush_py \<Rightarrow> (lb, Some IOError)))"

text \<open>
  \<^verbatim>\<open>self.scores.sort(key=lambda x: x['score'], reverse=True)\<close>: Python's sort is stable,
  also with \<^verbatim>\<open>reverse=True\<close>, so it is the stable ascending sort on the negated key.
\<close>

definition sort_scores :: "entry list \<Rightarrow> entry list" where
  "sort_scores es = sort_key (\<lambda>e. - score_e e) es"

text \<open>
  \<^verbatim>\<open>add_score\<close>: \<open>now\<close> is \<^verbatim>\<open>datetime.now().strftime("%Y-%m-%d %H:%M")\<close>.
\<close>

definition add_score ::
  "source_file \<Rightarrow> bool \<Rightarrow> string \<Rightarrow> leaderboard_state \<Rightarrow> int \<Rightarrow> int
     \<Rightarrow> leaderboard_state \<times> error option" where
  "add_score f io_ok now lb sc len =
     (if sc > 0 then
        (let new_entry = \<lparr>score_e = sc, length_e = len, date = now\<rparr>;
             appended = scores lb @ [new_entry];
             sorted_es = sort_scores appended;
             kept = (if length sorted_es > 10 then take 10 sorted_es else sorted_es)
         in save_scores f io_ok (lb\<lparr>scores := kept\<rparr>))
      else (lb, None))"

definition get_top_scores :: "leaderboard_state \<Rightarrow> nat \<Rightarrow> entry list" where
  "get_top_scores lb limit = take limit (scores lb)"

definition get_high_score :: "leaderboard_state \<Rightarrow> int" where
  "get_high_score lb = (case scores lb of [] \<Rightarrow> 0 | e # _ \<Rightarrow> score_e e)"

definition is_high_score :: "leaderboard_state \<Rightarrow> int \<Rightarrow> bool" where
  "is_high_score lb sc =
     (if scores lb = [] then True
      else (length (scores lb) < 10 \<or> sc > min_list (map score_e (scores lb))))"

text \<open>\<^verbatim>\<open>reset_scores\<close> (only \<^verbatim>\<open>snake_rush.py\<close> has it).\<close>

definition reset_scores ::
  "source_file \<Rightarrow> bool \<Rightarrow> leaderboard_state \<Rightarrow> leaderboard_state \<times> error option" where
  "reset_scores f io_ok lb = save_scores f io_ok (lb\<lparr>scores := []\<rparr>)"

section \<open>Snake\<close>

text \<open>
  Positions are pixel coordinates of the top-left corner of a block; directions are pairs
  of integers (the key handler passes the four unit vectors).
\<close>

type_synonym pos = "int \<times> int"

record snake_state =
  positions :: "pos list"
  direction :: "int \<times> int"
  next_direction :: "int \<times> int"
  length_s :: int
  score :: int
  color :: rgb

definition Snake_reset :: "env \<Rightarrow> snake_state" where
  "Snake_reset env =
     (let grid_x = GRID_WIDTH env div 2;
          grid_y = GRID_HEIGHT env div 2
      in \<lparr>positions = [(grid_x * BLOCK_SIZE (src env), grid_y * BLOCK_SIZE (src env))],
          direction = (1, 0),
          next_direction = (1, 0),
          length_s = 1,
          score = 0,
          color = GREEN\<rparr>)"

definition get_head_position :: "snake_state \<Rightarrow> error + pos" where
  "get_head_position s = (case positions s of [] \<Rightarrow> Inl IndexError | p # _ \<Rightarrow> Inr p)"

text \<open>
  \<^verbatim>\<open>Snake.update\<close> returns the game-over flag together with the snake as the call
  leaves it. Python's \<^verbatim>\<open>%\<close> is the floored remainder, as \<open>mod\<close> on \<open>int\<close> is, but it
  raises on a zero modulus.
\<close>

definition Snake_update :: "env \<Rightarrow> snake_state \<Rightarrow> error + (bool \<times> snake_state)" where
  "Snake_update env s0 =
     (let s = s0\<lparr>direction := next_direction s0\<rparr> in
      case get_head_position s of
        Inl e \<Rightarrow> Inl e
      | Inr (head_x, head_y) \<Rightarrow>
          (case direction s of (dir_x, dir_y) \<Rightarrow>
             if SCREEN_WIDTH env = 0 \<or> SCREEN_HEIGHT env = 0 then Inl ZeroDivisionError
             else
               (let new_x = (head_x + dir_x * BLOCK_SIZE (src env)) mod SCREEN_WIDTH env;
                    new_y = (head_y + dir_y * BLOCK_SIZE (src env)) mod SCREEN_HEIGHT env
                in if (new_x, new_y) \<in> set (tl (positions s)) then Inr (True, s)
                   else
                     (let inserted = (new_x, new_y) # positions s;
                          popped = (if int (length inserted) > length_s s
                                    then butlast inserted else inserted)
                      in Inr (False, s\<lparr>positions := popped\<rparr>)))))"

definition change_direction :: "int \<times> int \<Rightarrow> snake_state \<Rightarrow> snake_state" where
  "change_direction d s =
     (if (fst d * (- 1), snd d * (- 1)) \<noteq> direction s then s\<lparr>next_direction := d\<rparr> else s)"

section \<open>Randomness\<close>

text \<open>
  The results of \<^verbatim>\<open>random.randint\<close> are an input: a list of draws, consumed from the
  front, one per call. A draw inside the requested range \<open>a..b\<close> is the value the call
  returns; a draw outside it is wrapped into the range, so every list is a legal sequence
  of results. \<^verbatim>\<open>randint(a, b)\<close> raises \<^verbatim>\<open>ValueError\<close> on an empty range.
\<close>

definition randint :: "int \<Rightarrow> int \<Rightarrow> int list \<Rightarrow> error + (int \<times> int list)" where
  "randint a b rs =
     (if b < a then Inl ValueError
      else (case rs of
              [] \<Rightarrow> Inl OutOfDraws
            | d # ds \<Rightarrow> Inr (a + (d - a) mod (b - a + 1), ds)))"

section \<open>Food\<close>

record food_state =
  food_type :: int
  color_f :: rgb
  position :: pos
  timer :: int
  active :: bool
  points :: int

definition randomize_position :: "env \<Rightarrow> food_state \<Rightarrow> int list \<Rightarrow> error + (food_state \<times> int list)" where
  "randomize_position env food rs =
     (case randint 0 (GRID_WIDTH env - 1) rs of
        Inl e \<Rightarrow> Inl e
      | Inr (gx, rs1) \<Rightarrow>
          (case randint 0 (GRID_HEIGHT env - 1) rs1 of
             Inl e \<Rightarrow> Inl e
           | Inr (gy, rs2) \<Rightarrow>
               Inr (food\<lparr>position := (gx * BLOCK_SIZE (src env), gy * BLOCK_SIZE (src env))\<rparr>, rs2)))"

text \<open>\<^verbatim>\<open>Food.__init__\<close>: the position is drawn before timer, flag and points are set.\<close>

definition Food_init :: "env \<Rightarrow> int \<Rightarrow> int list \<Rightarrow> error + (food_state \<times> int list)" where
  "Food_init env ft rs =
     (case randomize_position env
             \<lparr>food_type = ft, color_f = RED, position = (0, 0), timer = 0, active = True, points = 1\<rparr> rs of
        Inl e \<Rightarrow> Inl e
      | Inr (food, rs') \<Rightarrow>
          Inr ((if ft = 2 then food\<lparr>color_f := YELLOW, timer := 150, points := 2\<rparr>
                else if ft = 3 then food\<lparr>color_f := BLUE, timer := 100, points := 3\<rparr>
                else if ft = 4 then food\<lparr>color_f := PURPLE, timer := 80, points := 5\<rparr>
                else food), rs'))"

text \<open>\<^verbatim>\<open>Food.update\<close> mutates the food and returns its \<^verbatim>\<open>active\<close> flag.\<close>

definition Food_update :: "food_state \<Rightarrow> food_state" where
  "Food_update food =
     (if food_type food > 1 then
        (let food1 = food\<lparr>timer := timer food - 1\<rparr>
         in if timer food1 \<le> 0 then food1\<lparr>active := False\<rparr> else food1)
      else food)"

section \<open>pygame.Rect.colliderect\<close>

text \<open>
  \<^verbatim>\<open>pygame.Rect\<close> holds its four fields as C \<^verbatim>\<open>int\<close>s: a Python integer outside
  the 32-bit range is wrapped into it when the rectangle is built, and the sums that
  \<^verbatim>\<open>colliderect\<close> computes wrap likewise. \<open>c_int\<close> is that wrap-around, in two's
  complement.
\<close>

definition c_int :: "int \<Rightarrow> int" where
  "c_int x = (x + 2147483648) mod 4294967296 - 2147483648"

datatype rect = Rect int int int int

definition pygame_Rect :: "int \<Rightarrow> int \<Rightarrow> int \<Rightarrow> int \<Rightarrow> rect" where
  "pygame_Rect x y w h = Rect (c_int x) (c_int y) (c_int w) (c_int h)"

text \<open>
  \<^verbatim>\<open>colliderect\<close>, as pygame implements it: two rectangles collide when their
  interiors overlap; a rectangle of width or height zero collides with nothing; a
  negative size spans to the left (upwards).
\<close>

fun colliderect :: "rect \<Rightarrow> rect \<Rightarrow> bool" where
  "colliderect (Rect ax ay aw ah) (Rect bx by bw bh) =
     (if aw = 0 \<or> ah = 0 \<or> bw = 0 \<or> bh = 0 then False
      else (min ax (c_int (ax + aw)) < max bx (c_int (bx + bw)) \<and>
            min ay (c_int (ay + ah)) < max by (c_int (by + bh)) \<and>
            max ax (c_int (ax + aw)) > min bx (c_int (bx + bw)) \<and>
            max ay (c_int (ay + ah)) > min by (c_int (by + bh))))"

section \<open>Game\<close>

text \<open>
  The fields of \<^verbatim>\<open>Game\<close> that the simulation reads or writes. Buttons, sounds and the
  \<^verbatim>\<open>game_bg_playing\<close>, \<^verbatim>\<open>sfx_muted\<close> globals only feed drawing and audio and are
  left out.
\<close>

record game_state =
  snake :: snake_state
  foods :: "food_state list"
  game_over :: bool
  paused :: bool
  current_speed :: int
  leaderboard :: leaderboard_state
  score_submitted :: bool
  title_screen :: bool
  show_leaderboard :: bool
  show_options :: bool

definition get_food_spawn_chances :: "game_state \<Rightarrow> int list" where
  "get_food_spawn_chances g =
     (let sc = score (snake g)
      in if sc < 10 then [85, 15, 0, 0]
         else if sc < 25 then [70, 25, 5, 0]
         else if sc < 50 then [60, 25, 12, 3]
         else [50, 30, 15, 5])"

lemma randint_draws:
  "randint a b rs = Inr (v, rs') \<Longrightarrow> length rs' < length rs"
  by (auto simp: randint_def split: if_splits list.splits)

lemma randomize_position_draws:
  "randomize_position env food rs = Inr (food', rs') \<Longrightarrow> length rs' < length rs"
  by (fastforce simp: randomize_position_def split: sum.splits prod.splits dest: randint_draws)

text \<open>
  The loop \<^verbatim>\<open>while new_food.position in [pos for pos in self.snake.positions]:
  new_food.randomize_position()\<close> of \<^verbatim>\<open>spawn_food\<close>. It has no bound in the source; here
  it ends, at the latest, when the draws do.
\<close>

function reroll :: "env \<Rightarrow> pos list \<Rightarrow> food_state \<Rightarrow> int list \<Rightarrow> error + (food_state \<times> int list)" where
  "reroll env ps food rs =
     (if position food \<in> set ps then
        (case randomize_position env food rs of
           Inl e \<Rightarrow> Inl e
         | Inr (food', rs') \<Rightarrow> reroll env ps food' rs')
      else Inr (food, rs))"
  by pat_completeness auto
termination
  by (relation "measure (\<lambda>(env, ps, food, rs). length rs)")
     (auto dest: randomize_position_draws)

declare reroll.simps [simp del]

definition spawn_food :: "env \<Rightarrow> game_state \<Rightarrow> int list \<Rightarrow> error + (game_state \<times> int list)" where
  "spawn_food env g rs =
     (let chances = get_food_spawn_chances g
      in case randint 1 100 rs of
           Inl e \<Rightarrow> Inl e
         | Inr (rand, rs1) \<Rightarrow>
             (let ft = (if rand \<le> chances ! 0 then 1
                        else if rand \<le> chances ! 0 + chances ! 1 then 2
                        else if rand \<le> chances ! 0 + chances ! 1 + chances ! 2 then 3
                        else 4)
              in case Food_init env ft rs1 of
                   Inl e \<Rightarrow> Inl e
                 | Inr (new_food, rs2) \<Rightarrow>
                     (case reroll env (positions (snake g)) new_food rs2 of
                        Inl e \<Rightarrow> Inl e
                      | Inr (placed, rs3) \<Rightarrow> Inr (g\<lparr>foods := foods g @ [placed]\<rparr>, rs3))))"

definition update_speed :: "game_state \<Rightarrow> game_state" where
  "update_speed g =
     (let speed_increase = score (snake g) div SPEED_INTERVAL
      in g\<lparr>current_speed := min (BASE_FPS + speed_increase) MAX_FPS\<rparr>)"

text \<open>
  \<^verbatim>\<open>Game.__init__\<close>: \<open>lb\<close> is the board that \<^verbatim>\<open>LeaderBoard()\<close> loads from the file.
\<close>

definition Game_init :: "env \<Rightarrow> leaderboard_state \<Rightarrow> int list \<Rightarrow> error + (game_state \<times> int list)" where
  "Game_init env lb rs =
     (let g = \<lparr>snake = Snake_reset env, foods = [], game_over = False, paused = False,
               current_speed = BASE_FPS, leaderboard = lb, score_submitted = False,
               title_screen = True, show_leaderboard = False, show_options = False\<rparr>
      in case spawn_food env g rs of
           Inl e \<Rightarrow> Inl e
         | Inr (g1, rs1) \<Rightarrow> spawn_food env g1 rs1)"

definition restart_game :: "env \<Rightarrow> game_state \<Rightarrow> int list \<Rightarrow> error + (game_state \<times> int list)" where
  "restart_game env g rs =
     (let g0 = g\<lparr>snake := Snake_reset env, foods := [], game_over := False, paused := False,
                 score_submitted := False, current_speed := BASE_FPS\<rparr>
      in case spawn_food env g0 rs of
           Inl e \<Rightarrow> Inl e
         | Inr (g1, rs1) \<Rightarrow> spawn_food env g1 rs1)"

text \<open>
  The first loop of \<^verbatim>\<open>Game.update\<close>: every food is updated in place, and a food whose
  \<^verbatim>\<open>update()\<close> returns false is removed from \<^verbatim>\<open>self.foods\<close>.
\<close>

fun expire_foods :: "food_state list \<Rightarrow> food_state list" where
  "expire_foods [] = []"
| "expire_foods (food # rest) =
     (let food' = Food_update food
      in if \<not> active food' then expire_foods rest else food' # expire_foods rest)"

text \<open>The growth table of \<^verbatim>\<open>Game.update\<close>; a type outside 1..4 matches no branch.\<close>

definition growth :: "source_file \<Rightarrow> int \<Rightarrow> int" where
  "growth f ft =
     (case f of
        snake_rush_py \<Rightarrow>
          (if ft = 1 then 1 else if ft = 2 then 2 else if ft = 3 then 3 else if ft = 4 then 4 else 0)
      | snakerush_py \<Rightarrow>
          (if ft = 1 then 1 else if ft = 2 then 1 else if ft = 3 then 2 else if ft = 4 then 3 else 0))"

text \<open>The test of the second loop: \<^verbatim>\<open>head_rect.colliderect(food_rect) and food.active\<close>.\<close>

definition consumes :: "env \<Rightarrow> pos \<Rightarrow> food_state \<Rightarrow> bool" where
  "consumes env head food =
     (colliderect (pygame_Rect (fst head) (snd head) (BLOCK_SIZE (src env)) (BLOCK_SIZE (src env)))
                  (pygame_Rect (fst (position food)) (snd (position food))
                        (BLOCK_SIZE (src env)) (BLOCK_SIZE (src env)))
      \<and> active food)"

text \<open>
  The second loop runs over a copy of \<^verbatim>\<open>self.foods\<close>. \<^verbatim>\<open>self.foods.remove(food)\<close>
  removes the object \<^verbatim>\<open>food\<close> itself (\<^verbatim>\<open>Food\<close> defines no \<^verbatim>\<open>__eq__\<close>); \<open>i\<close> is
  its index in \<^verbatim>\<open>self.foods\<close>: the foods kept so far stand before it, the spawned ones
  are appended behind the copy's.
\<close>

fun eat_foods :: "env \<Rightarrow> pos \<Rightarrow> food_state list \<Rightarrow> nat \<Rightarrow> game_state \<Rightarrow> int list
                  \<Rightarrow> error + (game_state \<times> int list)" where
  "eat_foods env head [] i g rs = Inr (g, rs)"
| "eat_foods env head (food # rest) i g rs =
     (if consumes env head food then
        (let g1 = g\<lparr>foods := take i (foods g) @ drop (Suc i) (foods g)\<rparr>;
             s1 = (snake g1)\<lparr>score := score (snake g1) + points food\<rparr>;
             s2 = s1\<lparr>length_s := length_s s1 + growth (src env) (food_type food)\<rparr>;
             g2 = g1\<lparr>snake := s2\<rparr>
         in case spawn_food env g2 rs of
              Inl e \<Rightarrow> Inl e
            | Inr (g3, rs') \<Rightarrow> eat_foods env head rest i (update_speed g3) rs')
      else eat_foods env head rest (Suc i) g rs)"

lemma Food_init_draws:
  "Food_init env ft rs = Inr (food, rs') \<Longrightarrow> length rs' < length rs"
  unfolding Food_init_def
  by (cases "randomize_position env
             \<lparr>food_type = ft, color_f = RED, position = (0, 0), timer = 0, active = True, points = 1\<rparr> rs")
     (auto dest: randomize_position_draws)

lemma reroll_draws:
  "reroll env ps food rs = Inr (food', rs') \<Longrightarrow> length rs' \<le> length rs"
proof (induction env ps food rs rule: reroll.induct)
  case (1 env ps food rs)
  show ?case
  proof (cases "position food \<in> set ps")
    case False
    with "1.prems" show ?thesis by (simp add: reroll.simps [of env ps food rs])
  next
    case True
    show ?thesis
    proof (cases "randomize_position env food rs")
      case (Inl e)
      with True "1.prems" show ?thesis by (simp add: reroll.simps [of env ps food rs])
    next
      case (Inr p)
      obtain f1 rs1 where p: "p = (f1, rs1)" by (cases p)
      from True Inr p "1.prems" have k: "reroll env ps f1 rs1 = Inr (food', rs')"
        by (simp add: reroll.simps [of env ps food rs])
      from Inr p have r: "randomize_position env food rs = Inr (f1, rs1)" by simp
      from "1.IH" [OF True r refl k] randomize_position_draws [OF r]
      show ?thesis by simp
    qed
  qed
qed

lemma spawn_food_draws:
  "spawn_food env g rs = Inr (g', rs') \<Longrightarrow> length rs' < length rs"
proof -
  assume a: "spawn_food env g rs = Inr (g', rs')"
  show ?thesis
  proof (cases "randint 1 100 rs")
    case (Inl e)
    with a show ?thesis by (simp add: spawn_food_def)
  next
    case (Inr p)
    obtain rand rs1 where p: "p = (rand, rs1)" by (cases p)
    define ft :: int where "ft = (let chances = get_food_spawn_chances g in
                        if rand \<le> chances ! 0 then 1
                        else if rand \<le> chances ! 0 + chances ! 1 then 2
                        else if rand \<le> chances ! 0 + chances ! 1 + chances ! 2 then 3
                        else 4)"
    from Inr p have l1: "length rs1 < length rs" by (auto dest: randint_draws)
    show ?thesis
    proof (cases "Food_init env ft rs1")
      case (Inl e)
      with a Inr p show ?thesis by (simp add: spawn_food_def Let_def ft_def)
    next
      case (Inr q)
      obtain nf rs2 where q: "q = (nf, rs2)" by (cases q)
      from Inr q have l2: "length rs2 < length rs1" by (auto dest: Food_init_draws)
      show ?thesis
      proof (cases "reroll env (positions (snake g)) nf rs2")
        case (Inl e)
        with a \<open>randint 1 100 rs = Inr p\<close> p Inr q show ?thesis
          by (simp add: spawn_food_def Let_def ft_def)
      next
        case (Inr r)
        obtain pl rs3 where r: "r = (pl, rs3)" by (cases r)
        from Inr r have l3: "length rs3 \<le> length rs2" by (auto dest: reroll_draws)
        from a \<open>randint 1 100 rs = Inr p\<close> p \<open>Food_init env ft rs1 = Inr q\<close> q Inr r
        have "rs' = rs3" by (simp add: spawn_food_def Let_def ft_def)
        with l1 l2 l3 show ?thesis by simp
      qed
    qed
  qed
qed

text \<open>
  \<^verbatim>\<open>min_foods = min(2 + (self.snake.score // 15), 4)\<close>, then
  \<^verbatim>\<open>while len(self.foods) < min_foods: self.spawn_food()\<close>.
\<close>

function top_up :: "env \<Rightarrow> int \<Rightarrow> game_state \<Rightarrow> int list \<Rightarrow> error + (game_state \<times> int list)" where
  "top_up env min_foods g rs =
     (if int (length (foods g)) < min_foods then
        (case spawn_food env g rs of
           Inl e \<Rightarrow> Inl e
         | Inr (g', rs') \<Rightarrow> top_up env min_foods g' rs')
      else Inr (g, rs))"
  by pat_completeness auto
termination
  by (relation "measure (\<lambda>(env, min_foods, g, rs). length rs)")
     (auto dest: spawn_food_draws)

declare top_up.simps [simp del]

text \<open>
  \<^verbatim>\<open>Game.update\<close>. \<open>now\<close> and \<open>io_ok\<close> feed \<^verbatim>\<open>add_score\<close>, \<open>rs\<close> are the draws;
  the result holds the draws left over. Only \<^verbatim>\<open>snakerush.py\<close> has
  \<^verbatim>\<open>self.show_options\<close> in the guard.
\<close>

definition Game_update :: "env \<Rightarrow> string \<Rightarrow> bool \<Rightarrow> int list \<Rightarrow> game_state
                           \<Rightarrow> error + (game_state \<times> int list)" where
  "Game_update env now io_ok rs g =
     (if title_screen g \<or> game_over g \<or> paused g \<or> show_leaderboard g
         \<or> (src env = snakerush_py \<and> show_options g) then
        (if game_over g \<and> \<not> score_submitted g then
           (if is_high_score (leaderboard g) (score (snake g)) then
              (case add_score (src env) io_ok now (leaderboard g)
                      (score (snake g)) (length_s (snake g)) of
                 (lb, Some e) \<Rightarrow> Inl e
               | (lb, None) \<Rightarrow> Inr (g\<lparr>leaderboard := lb, score_submitted := True\<rparr>, rs))
            else Inr (g\<lparr>score_submitted := True\<rparr>, rs))
         else Inr (g, rs))
      else
        (case Snake_update env (snake g) of
           Inl e \<Rightarrow> Inl e
         | Inr (over, s) \<Rightarrow>
             if over then Inr (g\<lparr>snake := s, game_over := True\<rparr>, rs)
             else
               (let g1 = g\<lparr>snake := s, foods := expire_foods (foods g)\<rparr>
                in case get_head_position (snake g1) of
                     Inl e \<Rightarrow> Inl e
                   | Inr head \<Rightarrow>
                       (case eat_foods env head (foods g1) 0 g1 rs of
                          Inl e \<Rightarrow> Inl e
                        | Inr (g2, rs2) \<Rightarrow>
                            top_up env (min (2 + score (snake g2) div 15) 4) g2 rs2))))"

text \<open>
  Successive calls of \<^verbatim>\<open>Game.update\<close> from the main loop, each with the inputs of its
  frame; an exception ends the run.
\<close>

fun run_updates :: "env \<Rightarrow> (string \<times> bool \<times> int list) list \<Rightarrow> game_state \<Rightarrow> error + game_state" where
  "run_updates env [] g = Inr g"
| "run_updates env ((now, io_ok, rs) # frames) g =
     (case Game_update env now io_ok rs g of
        Inl e \<Rightarrow> Inl e
      | Inr (g', rs') \<Rightarrow> run_updates env frames g')"

section \<open>The claims' own vocabulary, and concrete states for the examples\<close>

text \<open>
  The new head cell as the specification words it: the head plus the committed (pending)
  direction, one block far, wrapped modulo the playfield.
\<close>

definition new_head_cell :: "env \<Rightarrow> snake_state \<Rightarrow> pos" where
  "new_head_cell env s =
     (case hd (positions s) of (hx, hy) \<Rightarrow>
        case next_direction s of (dx, dy) \<Rightarrow>
          ((hx + dx * BLOCK_SIZE (src env)) mod SCREEN_WIDTH env,
           (hy + dy * BLOCK_SIZE (src env)) mod SCREEN_HEIGHT env))"

text \<open>A 300 by 300 display under \<^verbatim>\<open>snake_rush.py\<close>: a grid of 10 by 10 blocks of 30.\<close>

definition example_env :: env where
  "example_env = startup_env snake_rush_py 300 300"

definition empty_board :: leaderboard_state where
  "empty_board = \<lparr>scores = [], saved = []\<rparr>"

text \<open>
  The game that \<^verbatim>\<open>Game()\<close> builds there when the two initial foods are drawn as type 1
  at the grid cells (6, 5) and (7, 5), right in front of the snake.
\<close>

definition example_game :: game_state where
  "example_game =
     \<lparr>snake = Snake_reset example_env,
      foods = [\<lparr>food_type = 1, color_f = RED, position = (180, 150), timer = 0,
                 active = True, points = 1\<rparr>,
               \<lparr>food_type = 1, color_f = RED, position = (210, 150), timer = 0,
                 active = True, points = 1\<rparr>],
      game_over = False, paused = False, current_speed = BASE_FPS, leaderboard = empty_board,
      score_submitted = False, title_screen = True, show_leaderboard = False,
      show_options = False\<rparr>"

definition set_score :: "int \<Rightarrow> game_state \<Rightarrow> game_state" where
  "set_score sc g = g\<lparr>snake := (snake g)\<lparr>score := sc\<rparr>\<rparr>"

text \<open>A snake of four segments that has just turned upwards and is about to turn left,
  into its own tail.\<close>

definition coiled_snake :: snake_state where
  "coiled_snake =
     \<lparr>positions = [(30, 0), (30, 30), (0, 30), (0, 0)], direction = (0, - 1),
      next_direction = (- 1, 0), length_s = 4, score = 3, color = GREEN\<rparr>"

text \<open>
  The stored-collection invariant of the specification: at most 10 entries, sorted by
  score, descending.
\<close>

definition stored_invariant :: "entry list \<Rightarrow> bool" where
  "stored_invariant es = (length es \<le> 10 \<and> sorted_wrt (\<lambda>a b. score_e a \<ge> score_e b) es)"



text \<open>
  A full board whose least score, 12, is held by one entry, and the food the example game
  has right in front of the snake.
\<close>

definition full_board :: leaderboard_state where
  "full_board =
     \<lparr>scores = map (\<lambda>sc. \<lparr>score_e = sc, length_e = sc + 1, date = ''2024-01-01 12:00''\<rparr>)
                 [100, 90, 80, 70, 60, 50, 40, 30, 20, 12],
      saved = []\<rparr>"


text \<open>
  The guard of \<^verbatim>\<open>Game.update\<close>, negated: the states in which a call moves the snake.
\<close>

definition playing :: "env \<Rightarrow> game_state \<Rightarrow> bool" where
  "playing env g =
     (\<not> title_screen g \<and> \<not> game_over g \<and> \<not> paused g \<and> \<not> show_leaderboard g
      \<and> \<not> (src env = snakerush_py \<and> show_options g))"

text \<open>
  What the food loops of \<^verbatim>\<open>Game.update\<close> leave alone: the segments, the session flags
  and the board; the target length may only grow.
\<close>

definition keeps_session :: "game_state \<Rightarrow> game_state \<Rightarrow> bool" where
  "keeps_session g g' =
     (positions (snake g') = positions (snake g)
      \<and> length_s (snake g) \<le> length_s (snake g')
      \<and> game_over g' = game_over g \<and> paused g' = paused g
      \<and> leaderboard g' = leaderboard g \<and> score_submitted g' = score_submitted g
      \<and> title_screen g' = title_screen g \<and> show_leaderboard g' = show_leaderboard g
      \<and> show_options g' = show_options g)"

text \<open>
  The started game whose first food, right in front of the snake, is of type 2, and a
  game whose snake has just run into its own tail.
\<close>

definition type2_game :: game_state where
  "type2_game =
     \<lparr>snake = Snake_reset example_env,
      foods = [\<lparr>food_type = 2, color_f = YELLOW, position = (180, 150), timer = 150,
                 active = True, points = 2\<rparr>,
               \<lparr>food_type = 1, color_f = RED, position = (0, 0), timer = 0,
                 active = True, points = 1\<rparr>],
      game_over = False, paused = False, current_speed = BASE_FPS, leaderboard = empty_board,
      score_submitted = False, title_screen = False, show_leaderboard = False,
      show_options = False\<rparr>"

definition crashed_game :: game_state where
  "crashed_game =
     \<lparr>snake = coiled_snake\<lparr>direction := (- 1, 0)\<rparr>,
      foods = [\<lparr>food_type = 1, color_f = RED, position = (150, 150), timer = 0,
                 active = True, points = 1\<rparr>,
               \<lparr>food_type = 1, color_f = RED, position = (210, 150), timer = 0,
                 active = True, points = 1\<rparr>],
      game_over = True, paused = False, current_speed = BASE_FPS, leaderboard = empty_board,
      score_submitted = False, title_screen = False, show_leaderboard = False,
      show_options = False\<rparr>"

text \<open>
  The same start under \<^verbatim>\<open>snakerush.py\<close>, on a 400 by 400 display (10 by 10 blocks
  of 40), and what the speed scenario observes of a run: target length, score and speed.
\<close>

definition example_env_40 :: env where
  "example_env_40 = startup_env snakerush_py 400 400"

definition example_game_40 :: game_state where
  "example_game_40 =
     \<lparr>snake = Snake_reset example_env_40,
      foods = [\<lparr>food_type = 1, color_f = RED, position = (240, 200), timer = 0,
                 active = True, points = 1\<rparr>,
               \<lparr>food_type = 1, color_f = RED, position = (280, 200), timer = 0,
                 active = True, points = 1\<rparr>],
      game_over = False, paused = False, current_speed = BASE_FPS, leaderboard = empty_board,
      score_submitted = False, title_screen = True, show_leaderboard = False,
      show_options = False\<rparr>"

definition length_score_speed :: "error + game_state \<Rightarrow> (int \<times> int \<times> int) option" where
  "length_score_speed r =
     (case r of
        Inl e \<Rightarrow> None
      | Inr g \<Rightarrow> Some (length_s (snake g), score (snake g), current_speed g))"

text \<open>
  Grid alignment of a position, and a window of \<^verbatim>\<open>snake_rush.py\<close> resized to a width
  that is no multiple of the block size, with a snake at the right edge and a food in
  the second column.
\<close>

definition aligned :: "env \<Rightarrow> pos \<Rightarrow> bool" where
  "aligned env p = (BLOCK_SIZE (src env) dvd fst p \<and> BLOCK_SIZE (src env) dvd snd p)"

text \<open>
  The positions whose block-sized rectangle fits the C \<^verbatim>\<open>int\<close> range, so that neither
  the corner nor the far edge wraps.
\<close>

definition in_c_range :: "env \<Rightarrow> pos \<Rightarrow> bool" where
  "in_c_range env p =
     (- 2147483648 \<le> fst p \<and> fst p + BLOCK_SIZE (src env) < 2147483648
      \<and> - 2147483648 \<le> snd p \<and> snd p + BLOCK_SIZE (src env) < 2147483648)"



definition edge_food :: food_state where
  "edge_food =
     \<lparr>food_type = 1, color_f = RED, position = (30, 150), timer = 0, active = True, points = 1\<rparr>"


section \<open>Theorems\<close>

lemma example_game_init:
  "Game_init example_env empty_board [1, 6, 5, 1, 7, 5] = Inr (example_game, [])"
  by code_simp

lemma example_game_40_init:
  "Game_init example_env_40 empty_board [1, 6, 5, 1, 7, 5] = Inr (example_game_40, [])"
  by code_simp

lemma score_set_score:
  "score (snake (set_score k g)) = k"
  by (simp add: set_score_def)

subsection \<open>Snake movement\<close>

text \<open>
  Claim C1. For a snake with at least one segment on a playfield of non-zero width and
  height (otherwise \<^verbatim>\<open>Snake.update\<close> raises), \<^verbatim>\<open>Snake.update\<close> returns, and it returns
  true exactly when the new head cell, the head plus the committed direction wrapped modulo
  the playfield, is among \<^verbatim>\<open>positions[1:]\<close> as they were before the move. On that path
  the segment list is unchanged; otherwise the new head cell becomes the head.
\<close>

theorem Snake_update_collision:
  assumes "positions s \<noteq> []" and "SCREEN_WIDTH env \<noteq> 0" and "SCREEN_HEIGHT env \<noteq> 0"
  shows "\<exists>s'. Snake_update env s = Inr (new_head_cell env s \<in> set (tl (positions s)), s')
              \<and> (new_head_cell env s \<in> set (tl (positions s)) \<longrightarrow> positions s' = positions s)
              \<and> (new_head_cell env s \<notin> set (tl (positions s)) \<longrightarrow>
                    hd (positions s') = new_head_cell env s)"
proof -
  from assms(1) obtain p ps where ps: "positions s = p # ps"
    by (cases "positions s") auto
  obtain hx hy where p: "p = (hx, hy)" by (cases p)
  obtain dx dy where d: "next_direction s = (dx, dy)" by (cases "next_direction s")
  show ?thesis
    using assms(2,3) ps p d
    by (auto simp: Snake_update_def get_head_position_def new_head_cell_def Let_def)
qed

theorem Snake_update_collision_witness:
  "positions coiled_snake \<noteq> [] \<and> SCREEN_WIDTH example_env \<noteq> 0 \<and> SCREEN_HEIGHT example_env \<noteq> 0
   \<and> new_head_cell example_env coiled_snake = (0, 0)
   \<and> (\<exists>s'. Snake_update example_env coiled_snake = Inr (True, s')
             \<and> positions s' = [(30, 0), (30, 30), (0, 30), (0, 0)])"
proof -
  have h1: "positions coiled_snake \<noteq> []"
    by (simp add: coiled_snake_def)
  have h2: "SCREEN_WIDTH example_env \<noteq> 0"
    by (simp add: example_env_def startup_env_def BLOCK_SIZE_def)
  have h3: "SCREEN_HEIGHT example_env \<noteq> 0"
    by (simp add: example_env_def startup_env_def BLOCK_SIZE_def)
  have n: "new_head_cell example_env coiled_snake = (0, 0)"
    by (simp add: new_head_cell_def coiled_snake_def example_env_def startup_env_def
          BLOCK_SIZE_def)
  have ps: "positions coiled_snake = [(30, 0), (30, 30), (0, 30), (0, 0)]"
    by (simp add: coiled_snake_def)
  have m: "new_head_cell example_env coiled_snake \<in> set (tl (positions coiled_snake))"
    by (simp add: n ps)
  from Snake_update_collision [OF h1 h2 h3] m
  have "\<exists>s'. Snake_update example_env coiled_snake = Inr (True, s')
             \<and> positions s' = positions coiled_snake"
    by auto
  with h1 h2 h3 n ps show ?thesis by simp
qed

text \<open>
  Claim C3. \<^verbatim>\<open>change_direction(r)\<close> stores \<open>r\<close> in \<^verbatim>\<open>next_direction\<close>, changing nothing
  else, when \<open>r\<close> is not the componentwise negation of the current direction; when it is,
  the call leaves the whole snake as it was. So, from a state whose pending direction is
  not the reverse of the current one, the pending direction is \<open>r\<close> after the call exactly
  when \<open>r\<close> is not the reverse.
\<close>

theorem change_direction_guard:
  "(r \<noteq> (- fst (direction s), - snd (direction s)) \<longrightarrow>
      change_direction r s = s\<lparr>next_direction := r\<rparr>)
   \<and> (r = (- fst (direction s), - snd (direction s)) \<longrightarrow> change_direction r s = s)
   \<and> (next_direction s \<noteq> (- fst (direction s), - snd (direction s)) \<longrightarrow>
        (next_direction (change_direction r s) = r
           \<longleftrightarrow> r \<noteq> (- fst (direction s), - snd (direction s))))"
  by (cases r; cases "direction s") (auto simp: change_direction_def)

theorem change_direction_guard_witness:
  "direction (Snake_reset example_env) = (1, 0)
   \<and> change_direction (0, 1) (Snake_reset example_env)
       = (Snake_reset example_env)\<lparr>next_direction := (0, 1)\<rparr>
   \<and> change_direction (- 1, 0) (Snake_reset example_env) = Snake_reset example_env
   \<and> next_direction (change_direction (- 1, 0) (Snake_reset example_env)) = (1, 0)"
  using change_direction_guard [of "(0, 1)" "Snake_reset example_env"]
        change_direction_guard [of "(- 1, 0)" "Snake_reset example_env"]
  by (simp add: Snake_reset_def Let_def)

subsection \<open>Spawn chances and speed\<close>

text \<open>
  Claim C4. \<^verbatim>\<open>get_food_spawn_chances\<close> returns the four-band table of the specification,
  at every score (negative ones fall in the first band), and the four percentages add up
  to 100.
\<close>

theorem spawn_chances_table:
  "(score (snake g) < 10 \<longrightarrow> get_food_spawn_chances g = [85, 15, 0, 0])
   \<and> (10 \<le> score (snake g) \<and> score (snake g) \<le> 24 \<longrightarrow>
        get_food_spawn_chances g = [70, 25, 5, 0])
   \<and> (25 \<le> score (snake g) \<and> score (snake g) \<le> 49 \<longrightarrow>
        get_food_spawn_chances g = [60, 25, 12, 3])
   \<and> (50 \<le> score (snake g) \<longrightarrow> get_food_spawn_chances g = [50, 30, 15, 5])
   \<and> length (get_food_spawn_chances g) = 4
   \<and> sum_list (get_food_spawn_chances g) = 100"
  by (simp add: get_food_spawn_chances_def Let_def)

theorem spawn_chances_table_witness:
  "get_food_spawn_chances (set_score 9 example_game) = [85, 15, 0, 0]
   \<and> get_food_spawn_chances (set_score 10 example_game) = [70, 25, 5, 0]
   \<and> get_food_spawn_chances (set_score 24 example_game) = [70, 25, 5, 0]
   \<and> get_food_spawn_chances (set_score 25 example_game) = [60, 25, 12, 3]
   \<and> get_food_spawn_chances (set_score 49 example_game) = [60, 25, 12, 3]
   \<and> get_food_spawn_chances (set_score 50 example_game) = [50, 30, 15, 5]
   \<and> sum_list (get_food_spawn_chances (set_score 9 example_game)) = 100
   \<and> sum_list (get_food_spawn_chances (set_score 10 example_game)) = 100
   \<and> sum_list (get_food_spawn_chances (set_score 24 example_game)) = 100
   \<and> sum_list (get_food_spawn_chances (set_score 25 example_game)) = 100
   \<and> sum_list (get_food_spawn_chances (set_score 49 example_game)) = 100
   \<and> sum_list (get_food_spawn_chances (set_score 50 example_game)) = 100"
  using spawn_chances_table [of "set_score 9 example_game"]
        spawn_chances_table [of "set_score 10 example_game"]
        spawn_chances_table [of "set_score 24 example_game"]
        spawn_chances_table [of "set_score 25 example_game"]
        spawn_chances_table [of "set_score 49 example_game"]
        spawn_chances_table [of "set_score 50 example_game"]
  by (simp add: score_set_score)

text \<open>
  Claim C7. \<^verbatim>\<open>update_speed\<close> sets \<^verbatim>\<open>current_speed\<close> to
  \<^verbatim>\<open>min(BASE_FPS + score // SPEED_INTERVAL, MAX_FPS)\<close> with the constants 8, 5 and 20.
  And the scenario, under either source file: the game built by \<^verbatim>\<open>Game()\<close> with a fresh
  snake (length 1, score 0, speed 8) and a type 1 food in each of the next two cells,
  started, picks up a type 1 food in each of three consecutive ticks (the draws of each
  tick place the next food one cell further); length, score and speed are (2, 1, 8), then
  (3, 2, 8), then (4, 3, 8).
\<close>

theorem update_speed_formula:
  "current_speed (update_speed g) = min (8 + score (snake g) div 5) 20
   \<and> BASE_FPS = 8 \<and> SPEED_INTERVAL = 5 \<and> MAX_FPS = 20
   \<and> Game_init example_env empty_board [1, 6, 5, 1, 7, 5] = Inr (example_game, [])
   \<and> length_score_speed (Inr example_game) = Some (1, 0, 8)
   \<and> length_score_speed
        (run_updates example_env [(''t1'', True, [1, 8, 5])]
           (example_game\<lparr>title_screen := False\<rparr>)) = Some (2, 1, 8)
   \<and> length_score_speed
        (run_updates example_env [(''t1'', True, [1, 8, 5]), (''t2'', True, [1, 9, 5])]
           (example_game\<lparr>title_screen := False\<rparr>)) = Some (3, 2, 8)
   \<and> length_score_speed
        (run_updates example_env
           [(''t1'', True, [1, 8, 5]), (''t2'', True, [1, 9, 5]), (''t3'', True, [1, 0, 0])]
           (example_game\<lparr>title_screen := False\<rparr>)) = Some (4, 3, 8)
   \<and> Game_init example_env_40 empty_board [1, 6, 5, 1, 7, 5] = Inr (example_game_40, [])
   \<and> length_score_speed (Inr example_game_40) = Some (1, 0, 8)
   \<and> length_score_speed
        (run_updates example_env_40 [(''t1'', True, [1, 8, 5])]
           (example_game_40\<lparr>title_screen := False\<rparr>)) = Some (2, 1, 8)
   \<and> length_score_speed
        (run_updates example_env_40 [(''t1'', True, [1, 8, 5]), (''t2'', True, [1, 9, 5])]
           (example_game_40\<lparr>title_screen := False\<rparr>)) = Some (3, 2, 8)
   \<and> length_score_speed
        (run_updates example_env_40
           [(''t1'', True, [1, 8, 5]), (''t2'', True, [1, 9, 5]), (''t3'', True, [1, 0, 0])]
           (example_game_40\<lparr>title_screen := False\<rparr>)) = Some (4, 3, 8)"
proof -
  have a: "current_speed (update_speed g) = min (8 + score (snake g) div 5) 20"
    by (simp add: update_speed_def BASE_FPS_def SPEED_INTERVAL_def MAX_FPS_def Let_def)
  have b: "BASE_FPS = 8 \<and> SPEED_INTERVAL = 5 \<and> MAX_FPS = 20"
    by (simp add: BASE_FPS_def SPEED_INTERVAL_def MAX_FPS_def)
  have d0: "length_score_speed (Inr example_game) = Some (1, 0, 8)"
    by code_simp
  have d1: "length_score_speed
        (run_updates example_env [(''t1'', True, [1, 8, 5])]
           (example_game\<lparr>title_screen := False\<rparr>)) = Some (2, 1, 8)"
    by code_simp
  have d2: "length_score_speed
        (run_updates example_env [(''t1'', True, [1, 8, 5]), (''t2'', True, [1, 9, 5])]
           (example_game\<lparr>title_screen := False\<rparr>)) = Some (3, 2, 8)"
    by code_simp
  have d3: "length_score_speed
        (run_updates example_env
           [(''t1'', True, [1, 8, 5]), (''t2'', True, [1, 9, 5]), (''t3'', True, [1, 0, 0])]
           (example_game\<lparr>title_screen := False\<rparr>)) = Some (4, 3, 8)"
    by code_simp
  have e0: "length_score_speed (Inr example_game_40) = Some (1, 0, 8)"
    by code_simp
  have e1: "length_score_speed
        (run_updates example_env_40 [(''t1'', True, [1, 8, 5])]
           (example_game_40\<lparr>title_screen := False\<rparr>)) = Some (2, 1, 8)"
    by code_simp
  have e2: "length_score_speed
        (run_updates example_env_40 [(''t1'', True, [1, 8, 5]), (''t2'', True, [1, 9, 5])]
           (example_game_40\<lparr>title_screen := False\<rparr>)) = Some (3, 2, 8)"
    by code_simp
  have e3: "length_score_speed
        (run_updates example_env_40
           [(''t1'', True, [1, 8, 5]), (''t2'', True, [1, 9, 5]), (''t3'', True, [1, 0, 0])]
           (example_game_40\<lparr>title_screen := False\<rparr>)) = Some (4, 3, 8)"
    by code_simp
  from a b example_game_init d0 d1 d2 d3 example_game_40_init e0 e1 e2 e3
  show ?thesis by blast
qed

theorem update_speed_formula_witness:
  "current_speed (update_speed (set_score 3 example_game)) = 8
   \<and> current_speed (update_speed (set_score 37 example_game)) = 15
   \<and> current_speed (update_speed (set_score 60 example_game)) = 20
   \<and> current_speed (update_speed (set_score 1000 example_game)) = 20"
  using update_speed_formula [of "set_score 3 example_game", THEN conjunct1]
        update_speed_formula [of "set_score 37 example_game", THEN conjunct1]
        update_speed_formula [of "set_score 60 example_game", THEN conjunct1]
        update_speed_formula [of "set_score 1000 example_game", THEN conjunct1]
  by (simp add: score_set_score)

subsection \<open>Leaderboard\<close>

text \<open>
  Claim C10. On an empty board \<^verbatim>\<open>is_high_score\<close> is true of every integer, zero and the
  negative ones included, while \<^verbatim>\<open>add_score\<close> of a score that is not positive leaves the
  board as it was (and raises nothing): a score can qualify and still add no entry.
\<close>

theorem empty_board_accepts_but_ignores:
  assumes "scores lb = []"
  shows "is_high_score lb sc \<and> (sc \<le> 0 \<longrightarrow> add_score f io_ok now lb sc len = (lb, None))"
  using assms by (simp add: is_high_score_def add_score_def)

theorem empty_board_accepts_but_ignores_witness:
  "scores empty_board = []
   \<and> is_high_score empty_board 0
   \<and> add_score snake_rush_py True ''2024-01-01 12:00'' empty_board 0 1 = (empty_board, None)
   \<and> is_high_score empty_board (- 5)
   \<and> add_score snakerush_py False ''2024-01-01 12:00'' empty_board (- 5) 1 = (empty_board, None)"
proof -
  have e: "scores empty_board = []"
    by (simp add: empty_board_def)
  from empty_board_accepts_but_ignores [OF e, of 0 snake_rush_py True "''2024-01-01 12:00''" 1]
       empty_board_accepts_but_ignores [OF e, of "- 5" snakerush_py False "''2024-01-01 12:00''" 1]
       e
  show ?thesis by simp
qed

lemma sorted_wrt_sort_scores:
  "sorted_wrt (\<lambda>a b. score_e a \<ge> score_e b) (sort_scores es)"
proof -
  have "sorted (map (\<lambda>e. - score_e e) (sort_scores es))"
    by (simp add: sort_scores_def)
  then have "sorted_wrt (\<lambda>a b. - score_e a \<le> - score_e b) (sort_scores es)"
    by (simp add: sorted_map)
  then show ?thesis by simp
qed

lemma mset_sort_scores: "mset (sort_scores es) = mset es"
  by (simp add: sort_scores_def)

lemma length_sort_scores: "length (sort_scores es) = length es"
  by (simp add: sort_scores_def)

lemma stored_invariant_take_sort:
  "stored_invariant (take 10 (sort_scores es))"
  unfolding stored_invariant_def
  by (simp add: sorted_wrt_take sorted_wrt_sort_scores)

lemma add_score_result:
  "add_score f io_ok now lb sc len =
     (if 0 < sc then
        save_scores f io_ok
          (lb\<lparr>scores := take 10 (sort_scores (scores lb @ [\<lparr>score_e = sc, length_e = len, date = now\<rparr>]))\<rparr>)
      else (lb, None))"
  by (simp add: add_score_def Let_def)

lemma save_scores_cases:
  "save_scores f io_ok lb =
     (if io_ok then (lb\<lparr>saved := scores lb\<rparr>, None)
      else if f = snake_rush_py then (lb, None) else (lb, Some IOError))"
  by (cases f) (simp_all add: save_scores_def)

lemma scores_add_score:
  "scores (fst (add_score f io_ok now lb sc len)) =
     (if 0 < sc
      then take 10 (sort_scores (scores lb @ [\<lparr>score_e = sc, length_e = len, date = now\<rparr>]))
      else scores lb)"
  by (simp add: add_score_result save_scores_cases)

lemma raised_add_score:
  "snd (add_score f io_ok now lb sc len) =
     (if 0 < sc \<and> f = snakerush_py \<and> \<not> io_ok then Some IOError else None)"
  by (cases f) (simp_all add: add_score_result save_scores_cases)

lemma min_list_Min_image:
  "es \<noteq> [] \<Longrightarrow> min_list (map score_e es) = Min (score_e ` set es)"
  by (simp add: min_list_Min)

lemma is_high_score_iff:
  "is_high_score lb sc \<longleftrightarrow> (length (scores lb) < 10 \<or> Min (score_e ` set (scores lb)) < sc)"
  by (cases "scores lb = []") (simp_all add: is_high_score_def min_list_Min_image)

text \<open>The entry with the unique least score is the one a full board loses.\<close>

lemma unique_minimum_evicted:
  assumes len: "length es = 10"
    and mn: "Min (score_e ` set es) = m"
    and uniq: "length (filter (\<lambda>e. score_e e = m) es) = 1"
    and big: "m < score_e new"
  shows "\<forall>e \<in> set (take 10 (sort_scores (es @ [new]))). score_e e \<noteq> m"
proof -
  define ys where "ys = sort_scores (es @ [new])"
  have ne: "es \<noteq> []" using len by auto
  have ly: "length ys = 11" by (simp add: ys_def length_sort_scores len)
  then have yne: "ys \<noteq> []" by auto
  have tk: "take 10 ys = butlast ys" by (simp add: butlast_conv_take ly)
  have msy: "mset ys = mset (es @ [new])" by (simp add: ys_def mset_sort_scores)
  then have sety: "set ys = set es \<union> {new}" by (metis mset_eq_setD set_append list.set(1,2) Un_insert_right sup_bot.right_neutral)
  have ge: "m \<le> score_e e" if "e \<in> set ys" for e
  proof -
    from that sety have "e \<in> set es \<or> e = new" by auto
    then show ?thesis
    proof
      assume "e \<in> set es"
      then have "Min (score_e ` set es) \<le> score_e e" by (intro Min_le) auto
      with mn show ?thesis by simp
    next
      assume "e = new" with big show ?thesis by simp
    qed
  qed
  have "Min (score_e ` set es) \<in> score_e ` set es"
    using ne by (intro Min_in) auto
  with mn obtain e0 where e0: "e0 \<in> set es" "score_e e0 = m" by auto
  have srt: "sorted_wrt (\<lambda>a b. score_e a \<ge> score_e b) ys"
    by (simp add: ys_def sorted_wrt_sort_scores)
  have split: "ys = butlast ys @ [last ys]" using yne by simp
  have lastle: "score_e (last ys) \<le> score_e e" if "e \<in> set ys" for e
  proof (cases "e \<in> set (butlast ys)")
    case True
    from srt split have "sorted_wrt (\<lambda>a b. score_e a \<ge> score_e b) (butlast ys @ [last ys])" by simp
    with True show ?thesis by (auto simp: sorted_wrt_append)
  next
    case False
    with that split have "e = last ys"
      by (metis Un_iff empty_iff insert_iff list.set(1,2) set_append)
    then show ?thesis by simp
  qed
  have "e0 \<in> set ys" using e0 sety by auto
  from lastle [OF this] e0 have "score_e (last ys) \<le> m" by simp
  moreover have "m \<le> score_e (last ys)" using ge yne by auto
  ultimately have lm: "score_e (last ys) = m" by simp
  have cnt: "length (filter (\<lambda>e. score_e e = m) ys) = 1"
  proof -
    have "length (filter (\<lambda>e. score_e e = m) ys) = size (filter_mset (\<lambda>e. score_e e = m) (mset ys))"
      by (metis mset_filter size_mset)
    also have "\<dots> = size (filter_mset (\<lambda>e. score_e e = m) (mset (es @ [new])))"
      by (simp only: msy)
    also have "\<dots> = length (filter (\<lambda>e. score_e e = m) (es @ [new]))"
      by (metis mset_filter size_mset)
    also have "\<dots> = 1" using uniq big by simp
    finally show ?thesis .
  qed
  have "filter (\<lambda>e. score_e e = m) ys
          = filter (\<lambda>e. score_e e = m) (butlast ys) @ filter (\<lambda>e. score_e e = m) [last ys]"
    by (metis split filter_append)
  with cnt lm have "length (filter (\<lambda>e. score_e e = m) (butlast ys)) = 0" by simp
  then have "\<forall>e \<in> set (butlast ys). score_e e \<noteq> m"
    by (simp add: filter_empty_conv)
  with tk show ?thesis by (simp add: ys_def)
qed

lemma new_entry_kept:
  assumes len: "length es = 10"
    and mn: "Min (score_e ` set es) < score_e new"
  shows "new \<in> set (take 10 (sort_scores (es @ [new])))"
proof -
  define ys where "ys = sort_scores (es @ [new])"
  have ne: "es \<noteq> []" using len by auto
  have ly: "length ys = 11" by (simp add: ys_def length_sort_scores len)
  then have yne: "ys \<noteq> []" by auto
  have tk: "take 10 ys = butlast ys" by (simp add: butlast_conv_take ly)
  have msy: "mset ys = mset (es @ [new])" by (simp add: ys_def mset_sort_scores)
  then have sety: "set ys = set es \<union> {new}" by (metis mset_eq_setD set_append list.set(1,2) Un_insert_right sup_bot.right_neutral)
  have "Min (score_e ` set es) \<in> score_e ` set es"
    using ne by (intro Min_in) auto
  then obtain e0 where e0: "e0 \<in> set es" "score_e e0 = Min (score_e ` set es)" by auto
  have srt: "sorted_wrt (\<lambda>a b. score_e a \<ge> score_e b) ys"
    by (simp add: ys_def sorted_wrt_sort_scores)
  have split: "ys = butlast ys @ [last ys]" using yne by simp
  have lastle: "score_e (last ys) \<le> score_e e" if "e \<in> set ys" for e
  proof (cases "e \<in> set (butlast ys)")
    case True
    from srt split have "sorted_wrt (\<lambda>a b. score_e a \<ge> score_e b) (butlast ys @ [last ys])" by simp
    with True show ?thesis by (auto simp: sorted_wrt_append)
  next
    case False
    with that split have "e = last ys"
      by (metis Un_iff empty_iff insert_iff list.set(1,2) set_append)
    then show ?thesis by simp
  qed
  have "e0 \<in> set ys" using e0 sety by auto
  from lastle [OF this] e0 mn have "score_e (last ys) < score_e new" by simp
  then have "new \<noteq> last ys" by auto
  moreover have "new \<in> set ys" using sety by simp
  ultimately have "new \<in> set (butlast ys)"
    using split by (metis Un_iff empty_iff insert_iff list.set(1,2) set_append)
  with tk show ?thesis by (simp add: ys_def)
qed

text \<open>
  Claim C5. \<^verbatim>\<open>is_high_score(s)\<close> is true exactly when fewer than 10 entries are stored
  or \<open>s\<close> is greater than the least stored score. For every full board of 10 entries
  whose least score is 12: 12 does not qualify, 13 does, and when one entry alone holds
  the score 12, \<^verbatim>\<open>add_score(13, L)\<close> leaves a list of 10 entries that holds the new
  entry and no entry of score 12.
\<close>

theorem is_high_score_rule:
  "(is_high_score lb sc \<longleftrightarrow> (length (scores lb) < 10 \<or> Min (score_e ` set (scores lb)) < sc))
   \<and> (length (scores lb) = 10 \<and> Min (score_e ` set (scores lb)) = 12 \<longrightarrow>
        \<not> is_high_score lb 12 \<and> is_high_score lb 13
        \<and> (length (filter (\<lambda>e. score_e e = 12) (scores lb)) = 1 \<longrightarrow>
             (\<forall>e \<in> set (scores (fst (add_score f io_ok now lb 13 len))). score_e e \<noteq> 12)
             \<and> \<lparr>score_e = 13, length_e = len, date = now\<rparr>
                  \<in> set (scores (fst (add_score f io_ok now lb 13 len)))
             \<and> length (scores (fst (add_score f io_ok now lb 13 len))) = 10))"
proof (intro conjI impI)
  show "is_high_score lb sc \<longleftrightarrow> (length (scores lb) < 10 \<or> Min (score_e ` set (scores lb)) < sc)"
    by (rule is_high_score_iff)
next
  assume "length (scores lb) = 10 \<and> Min (score_e ` set (scores lb)) = 12"
  then show "\<not> is_high_score lb 12" by (simp add: is_high_score_iff)
next
  assume "length (scores lb) = 10 \<and> Min (score_e ` set (scores lb)) = 12"
  then show "is_high_score lb 13" by (simp add: is_high_score_iff)
next
  assume a: "length (scores lb) = 10 \<and> Min (score_e ` set (scores lb)) = 12"
    and u: "length (filter (\<lambda>e. score_e e = 12) (scores lb)) = 1"
  define new where "new = \<lparr>score_e = 13, length_e = len, date = now\<rparr>"
  have s: "scores (fst (add_score f io_ok now lb 13 len))
             = take 10 (sort_scores (scores lb @ [new]))"
    by (simp add: scores_add_score new_def)
  have big: "12 < score_e new" by (simp add: new_def)
  from unique_minimum_evicted [of "scores lb" 12 new] a u big s
  show "\<forall>e \<in> set (scores (fst (add_score f io_ok now lb 13 len))). score_e e \<noteq> 12" by simp
  from new_entry_kept [of "scores lb" new] a big s
  show "\<lparr>score_e = 13, length_e = len, date = now\<rparr>
          \<in> set (scores (fst (add_score f io_ok now lb 13 len)))"
    by (simp add: new_def)
  from a s show "length (scores (fst (add_score f io_ok now lb 13 len))) = 10"
    by (simp add: length_sort_scores)
qed

lemma full_board_facts:
  "length (scores full_board) = 10"
  "Min (score_e ` set (scores full_board)) = 12"
  "length (filter (\<lambda>e. score_e e = 12) (scores full_board)) = 1"
  by (simp_all add: full_board_def)

theorem is_high_score_rule_witness:
  "length (scores full_board) = 10
   \<and> Min (score_e ` set (scores full_board)) = 12
   \<and> length (filter (\<lambda>e. score_e e = 12) (scores full_board)) = 1
   \<and> \<not> is_high_score full_board 12
   \<and> is_high_score full_board 13
   \<and> is_high_score empty_board 0
   \<and> map score_e (scores (fst (add_score snake_rush_py True ''2024-02-02 10:30'' full_board 13 5)))
       = [100, 90, 80, 70, 60, 50, 40, 30, 20, 13]"
proof -
  note f = full_board_facts
  have c: "map score_e (scores (fst (add_score snake_rush_py True ''2024-02-02 10:30'' full_board 13 5)))
       = [100, 90, 80, 70, 60, 50, 40, 30, 20, 13]"
    by code_simp
  have e: "is_high_score empty_board 0"
    using is_high_score_rule [of empty_board 0] by (simp add: empty_board_def)
  from is_high_score_rule [of full_board 12 snake_rush_py True "''2024-02-02 10:30''" 5] f c e
  show ?thesis by simp
qed

text \<open>
  Claim C6. On a board that satisfies the stored-collection invariant, \<^verbatim>\<open>add_score\<close> of
  a score that is not positive leaves the board as it was; of a positive score it appends
  the new entry, sorts descending and keeps the first 10. After any call the list
  satisfies the invariant again: at most 10 entries, sorted descending by score (and made
  of old entries and the new one). The call raises only when the score is positive and
  the write fails under \<^verbatim>\<open>snakerush.py\<close>; the list is as described then, too.
\<close>

theorem add_score_keeps_invariant:
  assumes "stored_invariant (scores lb)"
  shows "(sc \<le> 0 \<longrightarrow> add_score f io_ok now lb sc len = (lb, None))
    \<and> (0 < sc \<longrightarrow>
         scores (fst (add_score f io_ok now lb sc len))
           = take 10 (sort_scores (scores lb @ [\<lparr>score_e = sc, length_e = len, date = now\<rparr>])))
    \<and> stored_invariant (scores (fst (add_score f io_ok now lb sc len)))
    \<and> length (scores (fst (add_score f io_ok now lb sc len))) \<le> 10
    \<and> sorted_wrt (\<lambda>a b. score_e a \<ge> score_e b) (scores (fst (add_score f io_ok now lb sc len)))
    \<and> mset (scores (fst (add_score f io_ok now lb sc len)))
         \<subseteq># mset (scores lb) + {#\<lparr>score_e = sc, length_e = len, date = now\<rparr>#}
    \<and> snd (add_score f io_ok now lb sc len)
         = (if 0 < sc \<and> f = snakerush_py \<and> \<not> io_ok then Some IOError else None)"
proof -
  define new where "new = \<lparr>score_e = sc, length_e = len, date = now\<rparr>"
  define after where "after = scores (fst (add_score f io_ok now lb sc len))"
  have s: "after = (if 0 < sc then take 10 (sort_scores (scores lb @ [new])) else scores lb)"
    by (simp add: after_def new_def scores_add_score)
  have z: "add_score f io_ok now lb sc len = (lb, None)" if "sc \<le> 0"
    using that by (simp add: add_score_result)
  have m: "mset (take 10 (sort_scores (scores lb @ [new]))) \<subseteq># mset (scores lb) + {#new#}"
  proof -
    have "mset (take 10 (sort_scores (scores lb @ [new])))
            \<subseteq># mset (sort_scores (scores lb @ [new]))"
      by (metis append_take_drop_id mset_append mset_subset_eq_add_left)
    then show ?thesis by (simp add: mset_sort_scores)
  qed
  from s assms stored_invariant_take_sort [of "scores lb @ [new]"]
  have i: "stored_invariant after" by simp
  from s m have ms: "mset after \<subseteq># mset (scores lb) + {#new#}" by simp
  from i have b: "length after \<le> 10" "sorted_wrt (\<lambda>a b. score_e a \<ge> score_e b) after"
    by (simp_all add: stored_invariant_def)
  from z s i b ms raised_add_score [of f io_ok now lb sc len]
  show ?thesis unfolding after_def new_def by simp
qed

theorem add_score_keeps_invariant_witness:
  "stored_invariant (scores full_board)
   \<and> add_score snake_rush_py True ''2024-02-02 10:30'' full_board 0 1 = (full_board, None)
   \<and> map score_e (scores (fst (add_score snakerush_py True ''2024-02-02 10:30'' full_board 55 9)))
       = [100, 90, 80, 70, 60, 55, 50, 40, 30, 20]
   \<and> stored_invariant (scores (fst (add_score snakerush_py True ''2024-02-02 10:30'' full_board 55 9)))
   \<and> snd (add_score snakerush_py True ''2024-02-02 10:30'' full_board 55 9) = None
   \<and> snd (add_score snakerush_py False ''2024-02-02 10:30'' full_board 55 9) = Some IOError
   \<and> stored_invariant (scores (fst (add_score snakerush_py False ''2024-02-02 10:30'' full_board 55 9)))"
proof -
  have i: "stored_invariant (scores full_board)"
    by (simp add: stored_invariant_def full_board_def)
  have c: "map score_e (scores (fst (add_score snakerush_py True ''2024-02-02 10:30'' full_board 55 9)))
       = [100, 90, 80, 70, 60, 55, 50, 40, 30, 20]"
    by code_simp
  from add_score_keeps_invariant [OF i, of 0 snake_rush_py True "''2024-02-02 10:30''" 1]
  have z: "add_score snake_rush_py True ''2024-02-02 10:30'' full_board 0 1 = (full_board, None)"
    by simp
  note on = add_score_keeps_invariant [OF i, of 55 snakerush_py True "''2024-02-02 10:30''" 9]
  note off = add_score_keeps_invariant [OF i, of 55 snakerush_py False "''2024-02-02 10:30''" 9]
  from on
  have k1: "stored_invariant (scores (fst (add_score snakerush_py True ''2024-02-02 10:30'' full_board 55 9)))"
    by blast
  from on
  have k2: "snd (add_score snakerush_py True ''2024-02-02 10:30'' full_board 55 9) = None"
    by simp
  from off
  have x1: "snd (add_score snakerush_py False ''2024-02-02 10:30'' full_board 55 9) = Some IOError"
    by simp
  from off
  have x2: "stored_invariant (scores (fst (add_score snakerush_py False ''2024-02-02 10:30'' full_board 55 9)))"
    by blast
  from i z c k1 k2 x1 x2 show ?thesis by blast
qed

subsection \<open>Food consumption\<close>

lemma BLOCK_SIZE_pos: "0 < BLOCK_SIZE f"
  by (cases f) (simp_all add: BLOCK_SIZE_def)

lemma BLOCK_SIZE_le: "BLOCK_SIZE f \<le> 40"
  by (cases f) (simp_all add: BLOCK_SIZE_def)










lemma randomize_position_aligned:
  "randomize_position env food rs = Inr (food', rs') \<Longrightarrow> aligned env (position food')"
  by (auto simp: randomize_position_def aligned_def split: sum.splits prod.splits)

lemma Food_init_aligned:
  assumes "Food_init env ft rs = Inr (food, rs')"
  shows "aligned env (position food)"
proof (cases "randomize_position env
             \<lparr>food_type = ft, color_f = RED, position = (0, 0), timer = 0, active = True, points = 1\<rparr> rs")
  case (Inl e)
  with assms show ?thesis by (simp add: Food_init_def)
next
  case (Inr q)
  obtain f0 rs0 where q: "q = (f0, rs0)" by (cases q)
  from randomize_position_aligned Inr q have "aligned env (position f0)" by blast
  moreover from assms Inr q have "position food = position f0"
    by (auto simp: Food_init_def split: if_splits)
  ultimately show ?thesis by simp
qed

lemma reroll_aligned:
  "aligned env (position food) \<Longrightarrow> reroll env ps food rs = Inr (food', rs')
     \<Longrightarrow> aligned env (position food')"
proof (induction env ps food rs rule: reroll.induct)
  case (1 env ps food rs)
  show ?case
  proof (cases "position food \<in> set ps")
    case False
    with "1.prems" show ?thesis by (simp add: reroll.simps [of env ps food rs])
  next
    case True
    show ?thesis
    proof (cases "randomize_position env food rs")
      case (Inl e)
      with True "1.prems" show ?thesis by (simp add: reroll.simps [of env ps food rs])
    next
      case (Inr q)
      obtain f1 rs1 where q: "q = (f1, rs1)" by (cases q)
      from Inr q have r: "randomize_position env food rs = Inr (f1, rs1)" by simp
      from True r "1.prems" have k: "reroll env ps f1 rs1 = Inr (food', rs')"
        by (simp add: reroll.simps [of env ps food rs])
      from "1.IH" [OF True r refl randomize_position_aligned [OF r] k] show ?thesis .
    qed
  qed
qed

lemma reroll_off_snake:
  "reroll env ps food rs = Inr (food', rs') \<Longrightarrow> position food' \<notin> set ps"
proof (induction env ps food rs rule: reroll.induct)
  case (1 env ps food rs)
  show ?case
  proof (cases "position food \<in> set ps")
    case False
    with "1.prems" show ?thesis by (simp add: reroll.simps [of env ps food rs])
  next
    case True
    show ?thesis
    proof (cases "randomize_position env food rs")
      case (Inl e)
      with True "1.prems" show ?thesis by (simp add: reroll.simps [of env ps food rs])
    next
      case (Inr q)
      obtain f1 rs1 where q: "q = (f1, rs1)" by (cases q)
      from Inr q have r: "randomize_position env food rs = Inr (f1, rs1)" by simp
      from True r "1.prems" have k: "reroll env ps f1 rs1 = Inr (food', rs')"
        by (simp add: reroll.simps [of env ps food rs])
      from "1.IH" [OF True r refl k] show ?thesis .
    qed
  qed
qed

lemma spawn_food_aligned:
  assumes "spawn_food env g rs = Inr (g', rs')"
  shows "\<exists>food. g' = g\<lparr>foods := foods g @ [food]\<rparr> \<and> aligned env (position food)
               \<and> position food \<notin> set (positions (snake g))"
proof -
  from assms obtain rand rs1 ft nf rs2 placed where
    fi: "Food_init env ft rs1 = Inr (nf, rs2)" and
    rr: "reroll env (positions (snake g)) nf rs2 = Inr (placed, rs')" and
    g': "g' = g\<lparr>foods := foods g @ [placed]\<rparr>"
    unfolding spawn_food_def Let_def
    by (auto split: sum.splits prod.splits)
  from reroll_aligned [OF Food_init_aligned [OF fi] rr] reroll_off_snake [OF rr] g'
  show ?thesis by blast
qed




lemma randint_range:
  "randint a b rs = Inr (v, rs') \<Longrightarrow> a \<le> v \<and> v \<le> b"
proof -
  assume r: "randint a b rs = Inr (v, rs')"
  then have ab: "a \<le> b" by (auto simp: randint_def split: if_splits)
  from r obtain d where v: "v = a + (d - a) mod (b - a + 1)"
    by (auto simp: randint_def split: if_splits list.splits)
  from ab have m: "0 < b - a + 1" by simp
  from pos_mod_sign [OF m, of "d - a"] pos_mod_bound [OF m, of "d - a"] v
  show ?thesis by simp
qed

lemma randomize_position_on_grid:
  assumes "randomize_position env food rs = Inr (food', rs')"
  shows "0 \<le> fst (position food')
         \<and> fst (position food') + BLOCK_SIZE (src env) \<le> GRID_WIDTH env * BLOCK_SIZE (src env)
         \<and> 0 \<le> snd (position food')
         \<and> snd (position food') + BLOCK_SIZE (src env) \<le> GRID_HEIGHT env * BLOCK_SIZE (src env)"
proof -
  from assms obtain gx rs1 gy where
    x: "randint 0 (GRID_WIDTH env - 1) rs = Inr (gx, rs1)" and
    y: "randint 0 (GRID_HEIGHT env - 1) rs1 = Inr (gy, rs')" and
    p: "position food' = (gx * BLOCK_SIZE (src env), gy * BLOCK_SIZE (src env))"
    by (auto simp: randomize_position_def split: sum.splits prod.splits)
  define b where "b = BLOCK_SIZE (src env)"
  have bp: "0 < b" by (simp add: b_def BLOCK_SIZE_pos)
  from randint_range [OF x] have gx: "0 \<le> gx" "gx + 1 \<le> GRID_WIDTH env" by simp_all
  from randint_range [OF y] have gy: "0 \<le> gy" "gy + 1 \<le> GRID_HEIGHT env" by simp_all
  from gx(2) bp have "(gx + 1) * b \<le> GRID_WIDTH env * b"
    by (simp add: mult_right_mono)
  moreover from gy(2) bp have "(gy + 1) * b \<le> GRID_HEIGHT env * b"
    by (simp add: mult_right_mono)
  ultimately show ?thesis
    using gx(1) gy(1) bp p by (simp add: b_def [symmetric] algebra_simps)
qed

lemma reroll_position:
  "reroll env ps food rs = Inr (food', rs') \<Longrightarrow>
     position food' = position food
     \<or> (\<exists>f0 r0 f1 r1. randomize_position env f0 r0 = Inr (f1, r1) \<and> position food' = position f1)"
proof (induction env ps food rs rule: reroll.induct)
  case (1 env ps food rs)
  show ?case
  proof (cases "position food \<in> set ps")
    case False
    with "1.prems" show ?thesis by (simp add: reroll.simps [of env ps food rs])
  next
    case True
    show ?thesis
    proof (cases "randomize_position env food rs")
      case (Inl e)
      with True "1.prems" show ?thesis by (simp add: reroll.simps [of env ps food rs])
    next
      case (Inr q)
      obtain f1 rs1 where q: "q = (f1, rs1)" by (cases q)
      from Inr q have r: "randomize_position env food rs = Inr (f1, rs1)" by simp
      from True r "1.prems" have k: "reroll env ps f1 rs1 = Inr (food', rs')"
        by (simp add: reroll.simps [of env ps food rs])
      from "1.IH" [OF True r refl k] r show ?thesis by blast
    qed
  qed
qed

lemma Food_init_position:
  assumes "Food_init env ft rs = Inr (food, rs')"
  shows "\<exists>f0 r0 f1 r1. randomize_position env f0 r0 = Inr (f1, r1) \<and> position food = position f1"
proof (cases "randomize_position env
             \<lparr>food_type = ft, color_f = RED, position = (0, 0), timer = 0, active = True, points = 1\<rparr> rs")
  case (Inl e)
  with assms show ?thesis by (simp add: Food_init_def)
next
  case (Inr q)
  obtain f0 rs0 where q: "q = (f0, rs0)" by (cases q)
  from assms Inr q have "position food = position f0"
    by (auto simp: Food_init_def split: if_splits)
  with Inr q show ?thesis by blast
qed

lemma spawn_food_in_c_range:
  assumes "GRID_WIDTH env * BLOCK_SIZE (src env) < 2147483648"
    and "GRID_HEIGHT env * BLOCK_SIZE (src env) < 2147483648"
    and "spawn_food env g rs = Inr (g', rs')"
  shows "\<exists>food. g' = g\<lparr>foods := foods g @ [food]\<rparr> \<and> aligned env (position food)
               \<and> in_c_range env (position food)"
proof -
  from assms(3) obtain rand rs1 ft nf rs2 placed where
    fi: "Food_init env ft rs1 = Inr (nf, rs2)" and
    rr: "reroll env (positions (snake g)) nf rs2 = Inr (placed, rs')" and
    g': "g' = g\<lparr>foods := foods g @ [placed]\<rparr>"
    unfolding spawn_food_def Let_def
    by (auto split: sum.splits prod.splits)
  from reroll_position [OF rr] Food_init_position [OF fi]
  obtain f0 r0 f1 r1 where
    rp: "randomize_position env f0 r0 = Inr (f1, r1)" and p: "position placed = position f1"
    by metis
  from randomize_position_on_grid [OF rp] assms(1,2) p
  have "in_c_range env (position placed)" by (simp add: in_c_range_def)
  with reroll_aligned [OF Food_init_aligned [OF fi] rr] g'
  show ?thesis by blast
qed

lemma wrapped_rectangle:
  "pygame_Rect 64424509470 0 30 30 = Rect 30 0 30 30
   \<and> \<not> in_c_range example_env (64424509470, 150)
   \<and> consumes example_env (64424509470, 150) edge_food"
  by code_simp

subsection \<open>The session: ticks and game over\<close>

lemma keeps_session_refl: "keeps_session g g"
  by (simp add: keeps_session_def)

lemma keeps_session_trans:
  "keeps_session g1 g2 \<Longrightarrow> keeps_session g2 g3 \<Longrightarrow> keeps_session g1 g3"
  by (auto simp: keeps_session_def)

lemma spawn_food_appends:
  assumes "spawn_food env g rs = Inr (g', rs')"
  shows "\<exists>food. g' = g\<lparr>foods := foods g @ [food]\<rparr>"
  using assms unfolding spawn_food_def Let_def
  by (auto split: sum.splits prod.splits)

lemma spawn_food_keeps: "spawn_food env g rs = Inr (g', rs') \<Longrightarrow> keeps_session g g'"
  by (auto dest!: spawn_food_appends simp: keeps_session_def)

lemma spawn_food_snake: "spawn_food env g rs = Inr (g', rs') \<Longrightarrow> snake g' = snake g"
  by (auto dest!: spawn_food_appends)

lemma growth_nonneg: "0 \<le> growth f ft"
  by (cases f) (simp_all add: growth_def)

lemma eat_foods_keeps:
  "eat_foods env head fs i g rs = Inr (g', rs') \<Longrightarrow> keeps_session g g'"
proof (induction fs arbitrary: i g rs)
  case Nil
  then show ?case by (simp add: keeps_session_refl)
next
  case (Cons food rest)
  show ?case
  proof (cases "consumes env head food")
    case False
    with Cons.prems have "eat_foods env head rest (Suc i) g rs = Inr (g', rs')" by simp
    then show ?thesis by (rule Cons.IH)
  next
    case True
    define g2 where "g2 = g\<lparr>foods := take i (foods g) @ drop (Suc i) (foods g),
        snake := (snake g)\<lparr>score := score (snake g) + points food,
                           length_s := length_s (snake g) + growth (src env) (food_type food)\<rparr>\<rparr>"
    have k2: "keeps_session g g2"
      using growth_nonneg [of "src env" "food_type food"] by (simp add: keeps_session_def g2_def)
    from Cons.prems True obtain g3 rs3 where
      sp: "spawn_food env g2 rs = Inr (g3, rs3)" and
      rec: "eat_foods env head rest i (update_speed g3) rs3 = Inr (g', rs')"
      by (auto simp: Let_def g2_def split: sum.splits prod.splits)
    have k3: "keeps_session g2 (update_speed g3)"
      using spawn_food_keeps [OF sp] by (simp add: keeps_session_def update_speed_def Let_def)
    from keeps_session_trans [OF k2 keeps_session_trans [OF k3 Cons.IH [OF rec]]]
    show ?thesis .
  qed
qed

lemma top_up_keeps:
  "top_up env n g rs = Inr (g', rs') \<Longrightarrow> keeps_session g g'"
proof (induction env n g rs rule: top_up.induct)
  case (1 env n g rs)
  show ?case
  proof (cases "int (length (foods g)) < n")
    case False
    with "1.prems" show ?thesis
      by (simp add: top_up.simps [of env n g rs] keeps_session_refl)
  next
    case True
    with "1.prems" obtain g1 rs1 where
      sp: "spawn_food env g rs = Inr (g1, rs1)" and
      rec: "top_up env n g1 rs1 = Inr (g', rs')"
      by (auto simp: top_up.simps [of env n g rs] split: sum.splits prod.splits)
    from keeps_session_trans [OF spawn_food_keeps [OF sp] "1.IH" [OF True sp refl rec]]
    show ?thesis .
  qed
qed

lemma Snake_update_moves:
  assumes "Snake_update env s0 = Inr (False, s)"
  shows "positions s0 \<noteq> []"
    and "length_s s = length_s s0"
    and "length (positions s) =
           (if int (length (positions s0)) + 1 > length_s s0
            then length (positions s0) else length (positions s0) + 1)"
  using assms
  by (auto simp: Snake_update_def get_head_position_def Let_def
           split: list.splits prod.splits if_splits)

lemma Snake_update_over:
  assumes "Snake_update env s0 = Inr (True, s)"
  shows "positions s = positions s0" and "length_s s = length_s s0"
  using assms
  by (auto simp: Snake_update_def get_head_position_def Let_def
           split: list.splits prod.splits if_splits)

lemma Game_update_playing:
  assumes "playing env g" and "Game_update env now io_ok rs g = Inr (g', rs')"
  shows "\<exists>over s. Snake_update env (snake g) = Inr (over, s)
            \<and> (if over then g' = g\<lparr>snake := s, game_over := True\<rparr>
               else keeps_session (g\<lparr>snake := s, foods := expire_foods (foods g)\<rparr>) g')"
proof -
  from assms(1) have guard: "\<not> (title_screen g \<or> game_over g \<or> paused g \<or> show_leaderboard g
         \<or> (src env = snakerush_py \<and> show_options g))"
    by (simp add: playing_def)
  from assms(2) guard obtain over s where su: "Snake_update env (snake g) = Inr (over, s)"
    by (auto simp: Game_update_def split: sum.splits prod.splits)
  show ?thesis
  proof (cases over)
    case True
    with assms(2) guard su have "g' = g\<lparr>snake := s, game_over := True\<rparr>"
      by (auto simp: Game_update_def)
    with su True show ?thesis
      by (intro exI [of _ True] exI [of _ s]) simp
  next
    case False
    define g1 where "g1 = g\<lparr>snake := s, foods := expire_foods (foods g)\<rparr>"
    from assms(2) guard su False obtain head g2 rs2 where
      e: "eat_foods env head (foods g1) 0 g1 rs = Inr (g2, rs2)" and
      t: "top_up env (min (2 + score (snake g2) div 15) 4) g2 rs2 = Inr (g', rs')"
      by (auto simp: Game_update_def Let_def g1_def split: sum.splits prod.splits)
    from keeps_session_trans [OF eat_foods_keeps [OF e] top_up_keeps [OF t]] su False
    show ?thesis
      by (intro exI [of _ False] exI [of _ s]) (simp add: g1_def)
  qed
qed

lemma type2_game_init:
  "Game_init example_env empty_board [90, 6, 5, 1, 0, 0] = Inr (type2_game\<lparr>title_screen := True\<rparr>, [])"
  by code_simp

lemma Snake_reset_segments:
  "positions (Snake_reset env) \<noteq> []"
  "int (length (positions (Snake_reset env))) \<le> length_s (Snake_reset env)"
  by (simp_all add: Snake_reset_def Let_def)

lemma twice_spawn_food:
  assumes "(case spawn_food env g0 rs of
              Inl e \<Rightarrow> Inl e
            | Inr (g1, rs1) \<Rightarrow> spawn_food env g1 rs1) = Inr (g, rs')"
  shows "snake g = snake g0 \<and> keeps_session g0 g"
proof (cases "spawn_food env g0 rs")
  case (Inl e)
  with assms show ?thesis by simp
next
  case (Inr p)
  obtain g1 rs1 where p: "p = (g1, rs1)" by (cases p)
  from Inr p have a: "spawn_food env g0 rs = Inr (g1, rs1)" by simp
  with assms have b: "spawn_food env g1 rs1 = Inr (g, rs')" by simp
  from spawn_food_snake [OF a] spawn_food_snake [OF b]
       keeps_session_trans [OF spawn_food_keeps [OF a] spawn_food_keeps [OF b]]
  show ?thesis by simp
qed

lemma Game_init_fresh:
  assumes "Game_init env lb rs = Inr (g, rs')"
  shows "snake g = Snake_reset env \<and> \<not> game_over g \<and> \<not> score_submitted g"
  using twice_spawn_food [OF assms [unfolded Game_init_def Let_def]]
  by (simp add: keeps_session_def)

lemma restart_game_fresh:
  assumes "restart_game env g rs = Inr (g', rs')"
  shows "snake g' = Snake_reset env \<and> \<not> game_over g' \<and> \<not> score_submitted g'"
  using twice_spawn_food [OF assms [unfolded restart_game_def Let_def]]
  by (simp add: keeps_session_def)

lemma change_direction_segments:
  "positions (change_direction d s) = positions s"
  "length_s (change_direction d s) = length_s s"
  by (simp_all add: change_direction_def)

text \<open>
  The segment bounds hold in every state a session reaches: \<^verbatim>\<open>Game()\<close> and
  \<^verbatim>\<open>restart_game\<close> establish them (the two lemmas above), \<^verbatim>\<open>change_direction\<close>
  touches neither field, and every call of \<^verbatim>\<open>Game.update\<close> keeps them.
\<close>

lemma Game_update_segments:
  assumes "positions (snake g) \<noteq> []"
    and "int (length (positions (snake g))) \<le> length_s (snake g)"
    and "Game_update env now io_ok rs g = Inr (g', rs')"
  shows "positions (snake g') \<noteq> [] \<and> int (length (positions (snake g'))) \<le> length_s (snake g')"
proof (cases "playing env g")
  case False
  with assms show ?thesis
    by (auto simp: Game_update_def playing_def split: if_splits prod.splits option.splits)
next
  case True
  from Game_update_playing [OF True assms(3)] obtain over s where
    su: "Snake_update env (snake g) = Inr (over, s)" and
    r: "if over then g' = g\<lparr>snake := s, game_over := True\<rparr>
        else keeps_session (g\<lparr>snake := s, foods := expire_foods (foods g)\<rparr>) g'"
    by blast
  show ?thesis
  proof (cases over)
    case True
    with su r assms(1,2) Snake_update_over [of env "snake g" s] show ?thesis by simp
  next
    case False
    with su have su': "Snake_update env (snake g) = Inr (False, s)" by simp
    note m = Snake_update_moves [OF su']
    from r False have p: "positions (snake g') = positions s"
      and l: "length_s s \<le> length_s (snake g')"
      by (simp_all add: keeps_session_def)
    from m assms(1,2) have "positions s \<noteq> [] \<and> int (length (positions s)) \<le> length_s s"
      by (cases "positions s") (auto split: if_splits)
    with p l show ?thesis by simp
  qed
qed

text \<open>
  Claim C2, as stated, fails. The game started on the example display, its first food of
  type 2 in front of the snake: the first tick eats it (score 2, target length 3, one
  segment). The second tick eats nothing, is not terminal, leaves score and target as
  they were, and ends with 2 segments, fewer than the target 3.
\<close>

theorem segments_trail_target_counterexample:
  "(case run_updates example_env [(''t1'', True, [1, 1, 1])] type2_game of
      Inl e \<Rightarrow> False
    | Inr g1 \<Rightarrow>
        (case Game_update example_env ''t2'' True [] g1 of
           Inl e \<Rightarrow> False
         | Inr (g2, rs2) \<Rightarrow>
             \<not> game_over g1 \<and> \<not> game_over g2
             \<and> score (snake g2) = score (snake g1)
             \<and> length_s (snake g2) = length_s (snake g1)
             \<and> length (positions (snake g2)) = 2
             \<and> length_s (snake g2) = 3
             \<and> int (length (positions (snake g2))) < length_s (snake g2)))"
  by code_simp

text \<open>
  Claim C2, amended. From a state with at least one segment and no more segments than the
  target length, every completed non-terminal tick gains one segment, up to the target as
  it was before the tick: the new count is the least of the old count plus one and the
  old target. The target never shrinks in the tick, so the count stays between 1 and the
  target; and when the count had reached the target and the tick did not raise it, the
  count equals the target again.
\<close>

theorem tick_segment_count:
  assumes "playing env g"
    and "positions (snake g) \<noteq> []"
    and "int (length (positions (snake g))) \<le> length_s (snake g)"
    and "Game_update env now io_ok rs g = Inr (g', rs')"
    and "\<not> game_over g'"
  shows "length (positions (snake g'))
           = min (length (positions (snake g)) + 1) (nat (length_s (snake g)))
         \<and> length_s (snake g) \<le> length_s (snake g')
         \<and> 1 \<le> length (positions (snake g'))
         \<and> int (length (positions (snake g'))) \<le> length_s (snake g')
         \<and> (int (length (positions (snake g))) = length_s (snake g)
              \<and> length_s (snake g') = length_s (snake g)
             \<longrightarrow> int (length (positions (snake g'))) = length_s (snake g'))"
proof -
  from Game_update_playing [OF assms(1,4)] obtain over s where
    su: "Snake_update env (snake g) = Inr (over, s)" and
    r: "if over then g' = g\<lparr>snake := s, game_over := True\<rparr>
        else keeps_session (g\<lparr>snake := s, foods := expire_foods (foods g)\<rparr>) g'"
    by blast
  from r assms(5) have no: "\<not> over" by (cases over) auto
  with r have k: "keeps_session (g\<lparr>snake := s, foods := expire_foods (foods g)\<rparr>) g'" by simp
  from su no have su': "Snake_update env (snake g) = Inr (False, s)" by simp
  note m = Snake_update_moves [OF su']
  from k have p: "positions (snake g') = positions s" and l: "length_s s \<le> length_s (snake g')"
    by (simp_all add: keeps_session_def)
  from m(3) assms(2,3)
  have c: "length (positions s) = min (length (positions (snake g)) + 1) (nat (length_s (snake g)))"
    by (auto simp: min_def)
  have pos: "1 \<le> length (positions (snake g))"
    using assms(2) by (cases "positions (snake g)") auto
  from c p l m(2) assms(3) pos show ?thesis by (auto simp: min_def)
qed

theorem tick_segment_count_witness:
  "playing example_env type2_game
   \<and> positions (snake type2_game) \<noteq> []
   \<and> int (length (positions (snake type2_game))) \<le> length_s (snake type2_game)
   \<and> (case Game_update example_env ''t1'' True [1, 1, 1] type2_game of
         Inl e \<Rightarrow> False
       | Inr (g', rs') \<Rightarrow>
           \<not> game_over g'
           \<and> length (positions (snake g'))
               = min (length (positions (snake type2_game)) + 1) (nat (length_s (snake type2_game)))
           \<and> length (positions (snake g')) = 1
           \<and> length_s (snake g') = 3)"
proof -
  have h1: "playing example_env type2_game"
    by (simp add: playing_def type2_game_def)
  have h2: "positions (snake type2_game) \<noteq> []"
    by (simp add: type2_game_def Snake_reset_def Let_def)
  have h3: "int (length (positions (snake type2_game))) \<le> length_s (snake type2_game)"
    by (simp add: type2_game_def Snake_reset_def Let_def)
  have c: "case Game_update example_env ''t1'' True [1, 1, 1] type2_game of
             Inl e \<Rightarrow> False
           | Inr (g', rs') \<Rightarrow> \<not> game_over g' \<and> length (positions (snake g')) = 1
                               \<and> length_s (snake g') = 3"
    by code_simp
  then obtain g' rs' where
    r: "Game_update example_env ''t1'' True [1, 1, 1] type2_game = Inr (g', rs')" and
    ng: "\<not> game_over g'" and v: "length (positions (snake g')) = 1" "length_s (snake g') = 3"
    by (auto split: sum.splits)
  from tick_segment_count [OF h1 h2 h3 r ng]
  have t: "length (positions (snake g'))
             = min (length (positions (snake type2_game)) + 1) (nat (length_s (snake type2_game)))"
    by blast
  from ng t v
  have X: "\<not> game_over g'
        \<and> length (positions (snake g'))
            = min (length (positions (snake type2_game)) + 1) (nat (length_s (snake type2_game)))
        \<and> length (positions (snake g')) = 1
        \<and> length_s (snake g') = 3"
    by blast
  show ?thesis
    unfolding r
    apply (simp only: sum.case prod.case)
    using h1 h2 h3 X by blast
qed

text \<open>
  In a state past the submission, \<^verbatim>\<open>Game.update\<close> changes nothing, whatever its
  inputs; and the flag is clear when a tick ends the game.
\<close>

lemma crashed_game_reached:
  "Game_update example_env ''t0'' True []
     (crashed_game\<lparr>snake := coiled_snake, game_over := False\<rparr>) = Inr (crashed_game, [])"
  by code_simp



lemma Game_update_enters_game_over:
  assumes "\<not> game_over g" and "\<not> score_submitted g"
    and "Game_update env now io_ok rs g = Inr (g', rs')"
  shows "\<not> score_submitted g'"
proof (cases "playing env g")
  case False
  with assms show ?thesis by (auto simp: Game_update_def playing_def)
next
  case True
  from Game_update_playing [OF True assms(3)] assms(2) show ?thesis
    by (auto simp: keeps_session_def split: if_splits)
qed



end
